theory Spec2Isabelle
  imports Main "HOL-Library.Word"
begin

unbundle bit_operations_syntax

section \<open>Data model (protocol/AirPodsData.hpp)\<close>

type_synonym uint8_t = "8 word"
type_synonym uint16_t = "16 word"
type_synonym uint64_t = "64 word"

text \<open>
  The three battery fields are C++ \<open>int\<close>. Every value the decoder stores in them is a
  nibble times ten (at most 150), so no 32-bit overflow can occur and they are kept as
  mathematical integers. The masks and shifts of the extraction are computed on the
  byte itself: the promoted \<open>int\<close> has the same low eight bits and no other bit set. The
  field \<open>case_level\<close> is the source's \<open>case_\<close>.
\<close>

record BatteryLevels =
  left :: int
  right :: int
  case_level :: int

record ChargingState =
  leftCharging :: bool
  rightCharging :: bool
  caseCharging :: bool

record DeviceState =
  leftInEar :: bool
  rightInEar :: bool
  bothInCase :: bool
  lidOpen :: bool

record AirPodsData =
  model :: string
  modelId :: string
  batteryLevels :: BatteryLevels
  chargingState :: ChargingState
  deviceState :: DeviceState
  broadcastingEar :: string

section \<open>Faults\<close>

text \<open>
  \<open>std::vector::operator[]\<close> does not check its index: reading at or beyond
  \<open>size()\<close> is undefined behaviour. \<open>sprintf_s\<close> calls the invalid-parameter handler
  when the formatted text and its terminator do not fit the buffer. Both are faults of
  the model, so that "never faults" is a statement about the code and not an artefact
  of total functions.
\<close>

datatype fault = OutOfRange | BufferTooSmall

definition at_index :: "uint8_t list \<Rightarrow> nat \<Rightarrow> fault + uint8_t" where
  "at_index data i = (if i < length data then Inr (data ! i) else Inl OutOfRange)"

definition bind_fault :: "fault + 'a \<Rightarrow> ('a \<Rightarrow> fault + 'b) \<Rightarrow> fault + 'b" where
  "bind_fault m f = (case m of Inl e \<Rightarrow> Inl e | Inr x \<Rightarrow> f x)"

section \<open>Hexadecimal formatting\<close>

definition hex_digit_upper :: "nat \<Rightarrow> char" where
  "hex_digit_upper d = ''0123456789ABCDEF'' ! d"

text \<open>The digits of a number in base 16, most significant first, without padding.\<close>

function to_hex_upper :: "nat \<Rightarrow> string" where
  "to_hex_upper n =
     (if n < 16 then [hex_digit_upper n]
      else to_hex_upper (n div 16) @ [hex_digit_upper (n mod 16)])"
  by pat_completeness auto
termination
  by (relation "measure id") auto

declare to_hex_upper.simps [simp del]

text \<open>\<open>setfill(c)\<close> with \<open>setw(w)\<close>, and \<open>%0wX\<close>: pad on the left up to a minimum width.\<close>

definition pad_left :: "nat \<Rightarrow> char \<Rightarrow> string \<Rightarrow> string" where
  "pad_left w c s = replicate (w - length s) c @ s"

section \<open>AppleContinuityParser (protocol/AppleContinuityParser.cpp)\<close>

definition PROXIMITY_PAIRING_TYPE :: uint8_t where
  "PROXIMITY_PAIRING_TYPE = 0x07"

definition MIN_DATA_LENGTH :: nat where
  "MIN_DATA_LENGTH = 8"

definition ParseModelName :: "uint16_t \<Rightarrow> string" where
  "ParseModelName m =
     (if m = 0x2014 then ''AirPods Pro 2''
      else if m = 0x200E then ''AirPods Pro''
      else if m = 0x2013 then ''AirPods 3''
      else if m = 0x200F then ''AirPods 2''
      else ''Unknown AirPods'')"

definition FormatModelId :: "uint16_t \<Rightarrow> string" where
  "FormatModelId m = ''0x'' @ pad_left 4 (CHR ''0'') (to_hex_upper (unat m))"

definition ExtractBatteryLevels :: "uint8_t \<Rightarrow> uint8_t \<Rightarrow> BatteryLevels" where
  "ExtractBatteryLevels batteryData statusByte =
     (let caseBattery = uint (drop_bit 4 (statusByte AND 0xF0)) * 10;
          leftBattery = uint (drop_bit 4 (batteryData AND 0xF0)) * 10;
          rightBattery = uint (batteryData AND 0x0F) * 10
      in \<lparr>left = leftBattery, right = rightBattery, case_level = caseBattery\<rparr>)"

definition ExtractChargingState :: "uint8_t \<Rightarrow> ChargingState" where
  "ExtractChargingState statusByte =
     (let caseCharging' = (statusByte AND 0x04 \<noteq> 0);
          leftCharging' = (statusByte AND 0x02 \<noteq> 0);
          rightCharging' = (statusByte AND 0x01 \<noteq> 0)
      in \<lparr>leftCharging = leftCharging', rightCharging = rightCharging',
          caseCharging = caseCharging'\<rparr>)"

definition ExtractDeviceState :: "uint8_t \<Rightarrow> DeviceState" where
  "ExtractDeviceState lidData =
     (let lidOpen' = (lidData AND 0x04 \<noteq> 0);
          leftInEar' = (lidData AND 0x02 \<noteq> 0);
          rightInEar' = (lidData AND 0x01 \<noteq> 0);
          bothInCase' = (\<not> leftInEar' \<and> \<not> rightInEar')
      in \<lparr>leftInEar = leftInEar', rightInEar = rightInEar',
          bothInCase = bothInCase', lidOpen = lidOpen'\<rparr>)"

definition DetermineBroadcastingEar :: string where
  "DetermineBroadcastingEar = ''right''"

text \<open>
  \<open>(data[4] << 8) | data[3]\<close> is computed on the promoted 32-bit \<open>int\<close> and then
  converted to \<open>uint16_t\<close>.
\<close>

definition Parse :: "uint8_t list \<Rightarrow> fault + AirPodsData option" where
  "Parse data =
     (if length data < MIN_DATA_LENGTH then Inr None
      else bind_fault (at_index data 0) (\<lambda>protocolType.
        if protocolType \<noteq> PROXIMITY_PAIRING_TYPE then Inr None
        else bind_fault (at_index data 4) (\<lambda>hi.
             bind_fault (at_index data 3) (\<lambda>lo.
             bind_fault (at_index data 5) (\<lambda>statusByte.
             bind_fault (at_index data 6) (\<lambda>batteryData.
             bind_fault (at_index data 7) (\<lambda>lidData.
               let mid = (ucast (push_bit 8 (ucast hi :: 32 word) OR ucast lo) :: uint16_t)
               in Inr (Some
                    \<lparr>model = ParseModelName mid,
                     modelId = FormatModelId mid,
                     batteryLevels = ExtractBatteryLevels batteryData statusByte,
                     chargingState = ExtractChargingState statusByte,
                     deviceState = ExtractDeviceState lidData,
                     broadcastingEar = DetermineBroadcastingEar\<rparr>))))))))"

definition CanParse :: "uint8_t list \<Rightarrow> fault + bool" where
  "CanParse data =
     (if length data \<ge> MIN_DATA_LENGTH
      then bind_fault (at_index data 0) (\<lambda>protocolType.
             Inr (protocolType = PROXIMITY_PAIRING_TYPE))
      else Inr False)"

section \<open>The monolithic decoder (airpods_battery_cli_v5.cpp)\<close>

record AirPodsData_v5 =
  v5_model :: string
  model_id :: string
  left_battery :: int
  right_battery :: int
  case_battery :: int
  left_charging :: bool
  right_charging :: bool
  case_charging :: bool
  left_in_ear :: bool
  right_in_ear :: bool
  both_in_case :: bool
  lid_open :: bool
  broadcasting_ear :: string

text \<open>\<open>sprintf_s(buf, "0x%04X", v)\<close> into a buffer of \<open>bufsize\<close> chars.\<close>

definition sprintf_s_0x04X :: "nat \<Rightarrow> uint16_t \<Rightarrow> fault + string" where
  "sprintf_s_0x04X bufsize v =
     (let s = ''0x'' @ pad_left 4 (CHR ''0'') (to_hex_upper (unat v))
      in if length s + 1 \<le> bufsize then Inr s else Inl BufferTooSmall)"

definition parse_airpods_data :: "uint8_t list \<Rightarrow> fault + AirPodsData_v5 option" where
  "parse_airpods_data data =
     (if length data < 8 then Inr None
      else bind_fault (at_index data 0) (\<lambda>b0.
        if b0 \<noteq> 0x07 then Inr None
        else bind_fault (at_index data 4) (\<lambda>hi.
             bind_fault (at_index data 3) (\<lambda>lo.
               let mid = (ucast (push_bit 8 (ucast hi :: 32 word) OR ucast lo) :: uint16_t);
                   name = (if mid = 0x2014 then ''AirPods Pro 2''
                           else if mid = 0x200E then ''AirPods Pro''
                           else if mid = 0x2013 then ''AirPods 3''
                           else if mid = 0x200F then ''AirPods 2''
                           else ''Unknown AirPods'')
               in bind_fault (sprintf_s_0x04X 8 mid) (\<lambda>model_hex.
                  bind_fault (at_index data 5) (\<lambda>status.
                  bind_fault (at_index data 6) (\<lambda>battery_data.
                  bind_fault (at_index data 7) (\<lambda>lid_data.
                    let lie = (lid_data AND 0x02 \<noteq> 0);
                        rie = (lid_data AND 0x01 \<noteq> 0)
                    in Inr (Some
                         \<lparr>v5_model = name,
                          model_id = model_hex,
                          left_battery = uint (drop_bit 4 (battery_data AND 0xF0)) * 10,
                          right_battery = uint (battery_data AND 0x0F) * 10,
                          case_battery = uint (drop_bit 4 (status AND 0xF0)) * 10,
                          left_charging = (status AND 0x02 \<noteq> 0),
                          right_charging = (status AND 0x01 \<noteq> 0),
                          case_charging = (status AND 0x04 \<noteq> 0),
                          left_in_ear = lie,
                          right_in_ear = rie,
                          both_in_case = (\<not> lie \<and> \<not> rie),
                          lid_open = (lid_data AND 0x04 \<noteq> 0),
                          broadcasting_ear = ''right''\<rparr>)))))))))"

section \<open>BleDevice (ble/BleDevice.hpp)\<close>

record BleDevice =
  deviceId :: string
  address :: uint64_t
  rssi :: int
  manufacturerData :: "uint8_t list"
  timestamp :: int
  airpodsData :: "AirPodsData option"

text \<open>\<open>operator==\<close> on devices compares the addresses only.\<close>

definition device_eq :: "BleDevice \<Rightarrow> BleDevice \<Rightarrow> bool" where
  "device_eq lhs rhs = (address lhs = address rhs)"

section \<open>WinRtBleScanner (ble/WinRtBleScanner.cpp)\<close>

text \<open>
  A \<open>DeviceCallback\<close> is a \<open>std::function\<close>: either empty or a callable. A callable is
  identified by a number, and calling it is recorded in the scanner's \<open>notified\<close> log
  together with the device it was given, in the order of the calls.
\<close>

datatype DeviceCallback = EmptyFunction | Callable nat

text \<open>
  The members keep their names without the trailing underscore of the source
  (\<open>devices_\<close>, \<open>deviceCallback_\<close>, \<open>stopRequested_\<close>, \<open>destroyRequested_\<close>,
  \<open>lastStartTime_\<close>); \<open>bleWatcherStarted\<close> is whether \<open>bleWatcher_.Status()\<close> is
  \<open>Started\<close>.
\<close>

record WinRtBleScanner =
  bleWatcherStarted :: bool
  devices :: "BleDevice list"
  deviceCallback :: DeviceCallback
  stopRequested :: bool
  destroyRequested :: bool
  lastStartTime :: nat
  notified :: "(nat \<times> BleDevice) list"

text \<open>The scanner as the constructor leaves it; \<open>now\<close> is the clock at construction.\<close>

definition new_scanner :: "nat \<Rightarrow> WinRtBleScanner" where
  "new_scanner now =
     \<lparr>bleWatcherStarted = False, devices = [], deviceCallback = EmptyFunction,
      stopRequested = False, destroyRequested = False, lastStartTime = now,
      notified = []\<rparr>"

subsection \<open>The device collection\<close>

definition RegisterCallback :: "DeviceCallback \<Rightarrow> WinRtBleScanner \<Rightarrow> WinRtBleScanner" where
  "RegisterCallback callback s = s\<lparr>deviceCallback := callback\<rparr>"

definition AddDevice :: "BleDevice \<Rightarrow> WinRtBleScanner \<Rightarrow> WinRtBleScanner" where
  "AddDevice device s =
     (let s1 = s\<lparr>devices := devices s @ [device]\<rparr>
      in case deviceCallback s1 of
           EmptyFunction \<Rightarrow> s1
         | Callable c \<Rightarrow> s1\<lparr>notified := notified s1 @ [(c, device)]\<rparr>)"

definition GetDevices :: "WinRtBleScanner \<Rightarrow> BleDevice list" where
  "GetDevices s = devices s"

definition GetDeviceCount :: "WinRtBleScanner \<Rightarrow> nat" where
  "GetDeviceCount s = length (devices s)"

definition ClearDevices :: "WinRtBleScanner \<Rightarrow> WinRtBleScanner" where
  "ClearDevices s = s\<lparr>devices := []\<rparr>"

text \<open>The operations a client or the advertisement pipeline performs on the collection.\<close>

datatype registry_op = Register DeviceCallback | Add BleDevice | Clear

fun run_op :: "WinRtBleScanner \<Rightarrow> registry_op \<Rightarrow> WinRtBleScanner" where
  "run_op s (Register cb) = RegisterCallback cb s"
| "run_op s (Add d) = AddDevice d s"
| "run_op s Clear = ClearDevices s"

definition run_ops :: "WinRtBleScanner \<Rightarrow> registry_op list \<Rightarrow> WinRtBleScanner" where
  "run_ops s ops = foldl run_op s ops"

subsection \<open>Start, Stop and the automatic restart\<close>

text \<open>
  \<open>bleWatcher\<close> belongs to the platform. Whether its \<open>Start()\<close> or \<open>Stop()\<close> returns or
  throws is an input of the model (\<open>ok\<close>), and so is the clock read by \<open>Start()\<close>. Both
  functions write their flag before they touch the watcher, so the flag is written on
  the failing path as well.
\<close>

definition Start :: "bool \<Rightarrow> nat \<Rightarrow> WinRtBleScanner \<Rightarrow> bool \<times> WinRtBleScanner" where
  "Start ok now s =
     (let s1 = s\<lparr>stopRequested := False, lastStartTime := now\<rparr>
      in if ok then (True, s1\<lparr>bleWatcherStarted := True\<rparr>) else (False, s1))"

definition Stop :: "bool \<Rightarrow> WinRtBleScanner \<Rightarrow> bool \<times> WinRtBleScanner" where
  "Stop ok s =
     (let s1 = s\<lparr>stopRequested := True\<rparr>
      in if ok then (True, s1\<lparr>bleWatcherStarted := False\<rparr>) else (False, s1))"

text \<open>
  What can be observed of the lifecycle: each wait of the retry loop on its timer, each
  explicit \<open>Stop()\<close> and \<open>Start()\<close> of a client (with its result), each \<open>Start()\<close> the
  retry loop issues (with its result), and the notification of a waiting destructor.

  \<open>Start()\<close>, \<open>Stop()\<close> and the handler of the notification run on different threads,
  and \<open>stopRequested_\<close> is an atomic flag that no lock protects. An explicit \<open>Stop()\<close>
  can therefore take effect between two notifications, while the handler waits on the
  retry timer (\<open>Stop()\<close> wakes that wait), or after the loop has read the flag and before
  the \<open>Start()\<close> which that read guards: \<open>!stopRequested_ && !Start()\<close> is a read
  followed by a call, not one step. Each \<open>Stop()\<close> is placed in the trace where it writes
  the flag.
\<close>

datatype event =
    Waited
  | ExplicitStop bool
  | ExplicitStart bool
  | RestartAttempt bool
  | NotifiedDestroy

text \<open>
  One round of the retry loop, as the environment shapes it: the explicit \<open>Stop()\<close> calls
  that take effect during the wait, those that take effect after the loop has read the
  flag and before it calls \<open>Start()\<close> (each with the outcome of the watcher's \<open>Stop()\<close>),
  the outcome the watcher's \<open>Start()\<close> would have, and the clock.
\<close>

record round =
  stops_during_wait :: "bool list"
  stops_after_test :: "bool list"
  start_succeeds :: bool
  clock :: nat

text \<open>
  \<open>do { wait_until(...) } while (!stopRequested_ && !Start())\<close>. The flag is read
  after the wait; when it is clear, \<open>Start()\<close> is called, and \<open>Start()\<close> begins by writing
  the flag to false, whatever was written to it since the read. The loop has no bound
  on its rounds; the list of rounds is the part of the execution that is observed, and
  a loop that is still running when the list ends yields no final state.
\<close>

fun retry_loop :: "WinRtBleScanner \<Rightarrow> round list \<Rightarrow> event list \<times> WinRtBleScanner option" where
  "retry_loop s [] = ([], None)"
| "retry_loop s (r # rs) =
     (let s1 = foldl (\<lambda>t ok. snd (Stop ok t)) s (stops_during_wait r);
          waited = Waited # map ExplicitStop (stops_during_wait r)
      in if stopRequested s1 then (waited, Some s1)
         else
           (let s1' = foldl (\<lambda>t ok. snd (Stop ok t)) s1 (stops_after_test r);
                evs = waited @ map ExplicitStop (stops_after_test r)
            in case Start (start_succeeds r) (clock r) s1' of
                 (True, s2) \<Rightarrow> (evs @ [RestartAttempt True], Some s2)
               | (False, s2) \<Rightarrow>
                   (case retry_loop s2 rs of
                      (later, res) \<Rightarrow> (evs @ [RestartAttempt False] @ later, res))))"

declare retry_loop.simps [simp del]

definition OnScannerStopped :: "WinRtBleScanner \<Rightarrow> round list \<Rightarrow> event list \<times> WinRtBleScanner option" where
  "OnScannerStopped s rs =
     (if \<not> destroyRequested s then retry_loop s rs
      else ([NotifiedDestroy], Some s))"

text \<open>
  An execution of the lifecycle: calls of clients and notifications from the watcher, in
  the order in which they take effect. The destructor sets \<open>destroyRequested_\<close> and calls
  \<open>Stop()\<close> unless a destruction is under way. A notification whose retry loop is still
  running when its rounds end closes the observed execution.
\<close>

datatype call =
    CallStart bool nat
  | CallStop bool
  | Destroy bool
  | StoppedNotification "round list"

fun run_lifecycle :: "WinRtBleScanner \<Rightarrow> call list \<Rightarrow> event list" where
  "run_lifecycle s [] = []"
| "run_lifecycle s (CallStart ok now # cs) =
     ExplicitStart ok # run_lifecycle (snd (Start ok now s)) cs"
| "run_lifecycle s (CallStop ok # cs) =
     ExplicitStop ok # run_lifecycle (snd (Stop ok s)) cs"
| "run_lifecycle s (Destroy ok # cs) =
     (if \<not> destroyRequested s
      then ExplicitStop ok # run_lifecycle (snd (Stop ok (s\<lparr>destroyRequested := True\<rparr>))) cs
      else run_lifecycle s cs)"
| "run_lifecycle s (StoppedNotification rs # cs) =
     (case OnScannerStopped s rs of
        (evs, None) \<Rightarrow> evs
      | (evs, Some s') \<Rightarrow> evs @ run_lifecycle s' cs)"

text \<open>
  Trace predicates. \<open>no_restart\<close>: the retry loop issues no \<open>Start()\<close> at all.
  \<open>respects_stop stopped\<close>: the retry loop issues no \<open>Start()\<close> while an explicit stop
  stands, that is, after an explicit \<open>Stop()\<close> that no later \<open>Start()\<close> has revoked;
  \<open>stopped\<close> tells whether such a stop stands when the trace begins.
\<close>

fun is_restart :: "event \<Rightarrow> bool" where
  "is_restart (RestartAttempt ok) = True"
| "is_restart e = False"

fun no_restart :: "event list \<Rightarrow> bool" where
  "no_restart [] = True"
| "no_restart (e # es) = (\<not> is_restart e \<and> no_restart es)"

fun respects_stop :: "bool \<Rightarrow> event list \<Rightarrow> bool" where
  "respects_stop stopped [] = True"
| "respects_stop stopped (ExplicitStop ok # es) = respects_stop True es"
| "respects_stop stopped (ExplicitStart ok # es) = respects_stop False es"
| "respects_stop stopped (RestartAttempt ok # es) = (\<not> stopped \<and> respects_stop False es)"
| "respects_stop stopped (Waited # es) = respects_stop stopped es"
| "respects_stop stopped (NotifiedDestroy # es) = respects_stop stopped es"

subsection \<open>Callbacks: what the code keeps, and what a registry of callbacks would do\<close>

text \<open>The callback that a sequence of operations leaves registered in the scanner.\<close>

fun last_registered :: "DeviceCallback \<Rightarrow> registry_op list \<Rightarrow> DeviceCallback" where
  "last_registered cb [] = cb"
| "last_registered cb (Register cb' # ops) = last_registered cb' ops"
| "last_registered cb (Add d # ops) = last_registered cb ops"
| "last_registered cb (Clear # ops) = last_registered cb ops"

text \<open>
  The notifications of the specification's registry: \<open>RegisterCallback\<close> adds a callback
  to those already registered, and every \<open>Add\<close> invokes all of them in the order of
  their registration. \<open>cbs\<close> are the callbacks registered so far.
\<close>

fun Spec_notifications :: "nat list \<Rightarrow> registry_op list \<Rightarrow> (nat \<times> BleDevice) list" where
  "Spec_notifications cbs [] = []"
| "Spec_notifications cbs (Register (Callable c) # ops) = Spec_notifications (cbs @ [c]) ops"
| "Spec_notifications cbs (Register EmptyFunction # ops) = Spec_notifications cbs ops"
| "Spec_notifications cbs (Add d # ops) = map (\<lambda>c. (c, d)) cbs @ Spec_notifications cbs ops"
| "Spec_notifications cbs (Clear # ops) = Spec_notifications cbs ops"

text \<open>The devices a sequence of operations adds, in order.\<close>

fun added :: "registry_op list \<Rightarrow> BleDevice list" where
  "added [] = []"
| "added (Add d # ops) = d # added ops"
| "added (x # ops) = added ops"

section \<open>Auxiliary facts\<close>

subsection \<open>Nibbles and bits of a byte\<close>

lemma mask_F0: "(0xF0 :: uint8_t) = push_bit 4 (mask 4)"
  by (simp add: mask_eq_exp_minus_1)

lemma high_nibble_mask: "drop_bit 4 ((w :: uint8_t) AND 0xF0) = drop_bit 4 w"
  unfolding mask_F0
  by (rule bit_word_eqI) (auto simp: bit_simps dest: bit_imp_le_length)

lemma high_nibble_uint: "uint (drop_bit 4 ((w :: uint8_t) AND 0xF0)) = uint w div 16"
  by (subst high_nibble_mask) (simp add: drop_bit_eq_div uint_div)

lemma mask_0F: "(0x0F :: uint8_t) = mask 4"
  by (simp add: mask_eq_exp_minus_1)

lemma low_nibble_uint: "uint ((w :: uint8_t) AND 0x0F) = uint w mod 16"
  unfolding mask_0F by (simp add: take_bit_eq_mod uint_mod flip: take_bit_eq_mask)

lemma test_bit0: "((w :: uint8_t) AND 0x01 \<noteq> 0) = bit w 0"
  using and_exp_eq_0_iff_not_bit [of w 0] by simp

lemma test_bit1: "((w :: uint8_t) AND 0x02 \<noteq> 0) = bit w 1"
  using and_exp_eq_0_iff_not_bit [of w 1] by simp

lemma test_bit2: "((w :: uint8_t) AND 0x04 \<noteq> 0) = bit w 2"
  using and_exp_eq_0_iff_not_bit [of w 2] by simp

lemma ExtractBatteryLevels_nibbles:
  "ExtractBatteryLevels batteryData statusByte =
     \<lparr>left = (uint batteryData div 16) * 10,
      right = (uint batteryData mod 16) * 10,
      case_level = (uint statusByte div 16) * 10\<rparr>"
  unfolding ExtractBatteryLevels_def Let_def high_nibble_uint low_nibble_uint
  by (rule refl)

subsection \<open>The two branches of the decoders\<close>

lemma Parse_reject:
  "length data < 8 \<or> data ! 0 \<noteq> 0x07 \<Longrightarrow> Parse data = Inr None"
  by (auto simp: Parse_def MIN_DATA_LENGTH_def PROXIMITY_PAIRING_TYPE_def at_index_def
      bind_fault_def)

lemma Parse_accept:
  assumes "8 \<le> length data" and "data ! 0 = 0x07"
  shows "Parse data = Inr (Some
          \<lparr>model = ParseModelName
                     (ucast (push_bit 8 (ucast (data ! 4) :: 32 word) OR ucast (data ! 3))),
           modelId = FormatModelId
                       (ucast (push_bit 8 (ucast (data ! 4) :: 32 word) OR ucast (data ! 3))),
           batteryLevels = ExtractBatteryLevels (data ! 6) (data ! 5),
           chargingState = ExtractChargingState (data ! 5),
           deviceState = ExtractDeviceState (data ! 7),
           broadcastingEar = DetermineBroadcastingEar\<rparr>)"
  using assms
  by (auto simp: Parse_def MIN_DATA_LENGTH_def PROXIMITY_PAIRING_TYPE_def at_index_def
      bind_fault_def Let_def)

lemma Parse_cases:
  obtains (rejected) "length data < 8 \<or> data ! 0 \<noteq> 0x07" "Parse data = Inr None"
  | (accepted) "8 \<le> length data" "data ! 0 = 0x07"
      "Parse data = Inr (Some
          \<lparr>model = ParseModelName
                     (ucast (push_bit 8 (ucast (data ! 4) :: 32 word) OR ucast (data ! 3))),
           modelId = FormatModelId
                       (ucast (push_bit 8 (ucast (data ! 4) :: 32 word) OR ucast (data ! 3))),
           batteryLevels = ExtractBatteryLevels (data ! 6) (data ! 5),
           chargingState = ExtractChargingState (data ! 5),
           deviceState = ExtractDeviceState (data ! 7),
           broadcastingEar = DetermineBroadcastingEar\<rparr>)"
proof (cases "length data < 8 \<or> data ! 0 \<noteq> 0x07")
  case True
  then show ?thesis using Parse_reject [of data] rejected by blast
next
  case False
  then have "8 \<le> length data" "data ! 0 = 0x07" by simp_all
  then show ?thesis using Parse_accept [of data] accepted by blast
qed

lemma to_hex_upper_length:
  "0 < k \<Longrightarrow> n < 16 ^ k \<Longrightarrow> length (to_hex_upper n) \<le> k"
proof (induction k arbitrary: n)
  case 0
  then show ?case by simp
next
  case (Suc k)
  show ?case
  proof (cases "n < 16")
    case True
    then show ?thesis by (simp add: to_hex_upper.simps)
  next
    case False
    with Suc.prems have "0 < k" by (cases k) auto
    moreover from Suc.prems have "n div 16 < 16 ^ k"
      by (simp add: less_mult_imp_div_less mult.commute)
    ultimately have "length (to_hex_upper (n div 16)) \<le> k" by (rule Suc.IH)
    with False show ?thesis by (subst to_hex_upper.simps) simp
  qed
qed

lemma formatted_length:
  "length (''0x'' @ pad_left 4 (CHR ''0'') (to_hex_upper (unat (m :: uint16_t)))) = 6"
proof -
  have "unat m < 16 ^ 4" using unsigned_less [of m] by simp
  then have "length (to_hex_upper (unat m)) \<le> 4" by (intro to_hex_upper_length) simp_all
  then show ?thesis by (simp add: pad_left_def)
qed

lemma sprintf_s_fits: "sprintf_s_0x04X 8 m = Inr (FormatModelId m)"
  using formatted_length [of m] by (simp add: sprintf_s_0x04X_def FormatModelId_def Let_def)

lemma parse_airpods_data_reject:
  "length data < 8 \<or> data ! 0 \<noteq> 0x07 \<Longrightarrow> parse_airpods_data data = Inr None"
  by (auto simp: parse_airpods_data_def at_index_def bind_fault_def)

lemma parse_airpods_data_accept:
  assumes "8 \<le> length data" and "data ! 0 = 0x07"
  shows "parse_airpods_data data = Inr (Some
          \<lparr>v5_model = ParseModelName
                        (ucast (push_bit 8 (ucast (data ! 4) :: 32 word) OR ucast (data ! 3))),
           model_id = FormatModelId
                        (ucast (push_bit 8 (ucast (data ! 4) :: 32 word) OR ucast (data ! 3))),
           left_battery = uint (drop_bit 4 (data ! 6 AND 0xF0)) * 10,
           right_battery = uint (data ! 6 AND 0x0F) * 10,
           case_battery = uint (drop_bit 4 (data ! 5 AND 0xF0)) * 10,
           left_charging = (data ! 5 AND 0x02 \<noteq> 0),
           right_charging = (data ! 5 AND 0x01 \<noteq> 0),
           case_charging = (data ! 5 AND 0x04 \<noteq> 0),
           left_in_ear = (data ! 7 AND 0x02 \<noteq> 0),
           right_in_ear = (data ! 7 AND 0x01 \<noteq> 0),
           both_in_case = (\<not> (data ! 7 AND 0x02 \<noteq> 0) \<and> \<not> (data ! 7 AND 0x01 \<noteq> 0)),
           lid_open = (data ! 7 AND 0x04 \<noteq> 0),
           broadcasting_ear = ''right''\<rparr>)"
  using assms
  by (auto simp: parse_airpods_data_def at_index_def bind_fault_def Let_def sprintf_s_fits
      ParseModelName_def)

subsection \<open>Sample payloads\<close>

lemma model_id_2014:
  "(ucast (push_bit 8 (ucast (0x20 :: uint8_t) :: 32 word) OR ucast (0x14 :: uint8_t)) :: uint16_t)
     = 0x2014"
  by simp

lemma model_id_000A:
  "(ucast (push_bit 8 (ucast (0x00 :: uint8_t) :: 32 word) OR ucast (0x0A :: uint8_t)) :: uint16_t)
     = 0x000A"
  by simp

lemma hex_2014: "to_hex_upper 8212 = ''2014''"
  by (simp add: to_hex_upper.simps hex_digit_upper_def)

lemma hex_A: "to_hex_upper 10 = ''A''"
  by (simp add: to_hex_upper.simps hex_digit_upper_def)

lemma FormatModelId_2014: "FormatModelId 0x2014 = ''0x2014''"
  by (simp add: FormatModelId_def hex_2014 pad_left_def)

lemma FormatModelId_000A: "FormatModelId 0x000A = ''0x000A''"
proof -
  have "replicate 3 (CHR ''0'') = ''000''" by (simp add: numeral_3_eq_3)
  then show ?thesis by (simp add: FormatModelId_def hex_A pad_left_def)
qed

lemmas sample_eval =
  model_id_2014 model_id_000A FormatModelId_2014 FormatModelId_000A ParseModelName_def
  ExtractBatteryLevels_def ExtractChargingState_def ExtractDeviceState_def
  DetermineBroadcastingEar_def

lemma Parse_capture:
  "Parse [0x07, 0x19, 0x01, 0x14, 0x20, 0x0b, 0x88, 0x8f] =
     Inr (Some
       \<lparr>model = ''AirPods Pro 2'', modelId = ''0x2014'',
        batteryLevels = \<lparr>left = 80, right = 80, case_level = 0\<rparr>,
        chargingState = \<lparr>leftCharging = True, rightCharging = True, caseCharging = False\<rparr>,
        deviceState = \<lparr>leftInEar = True, rightInEar = True, bothInCase = False,
                       lidOpen = True\<rparr>,
        broadcastingEar = ''right''\<rparr>)"
  by (simp add: Parse_accept sample_eval)

lemma Parse_large_nibbles:
  "Parse [0x07, 0x19, 0x01, 0x14, 0x20, 0xFB, 0xFB, 0x8C] =
     Inr (Some
       \<lparr>model = ''AirPods Pro 2'', modelId = ''0x2014'',
        batteryLevels = \<lparr>left = 150, right = 110, case_level = 150\<rparr>,
        chargingState = \<lparr>leftCharging = True, rightCharging = True, caseCharging = False\<rparr>,
        deviceState = \<lparr>leftInEar = False, rightInEar = False, bothInCase = True,
                       lidOpen = True\<rparr>,
        broadcastingEar = ''right''\<rparr>)"
  by (simp add: Parse_accept sample_eval)

lemma Parse_unknown_model:
  "Parse [0x07, 0x19, 0x01, 0x0A, 0x00, 0x53, 0x4A, 0x03, 0x04, 0x05] =
     Inr (Some
       \<lparr>model = ''Unknown AirPods'', modelId = ''0x000A'',
        batteryLevels = \<lparr>left = 40, right = 100, case_level = 50\<rparr>,
        chargingState = \<lparr>leftCharging = True, rightCharging = True, caseCharging = False\<rparr>,
        deviceState = \<lparr>leftInEar = True, rightInEar = True, bothInCase = False,
                       lidOpen = False\<rparr>,
        broadcastingEar = ''right''\<rparr>)"
  by (simp add: Parse_accept sample_eval)

lemma parse_airpods_data_capture:
  "parse_airpods_data [0x07, 0x19, 0x01, 0x14, 0x20, 0x0b, 0x88, 0x8f] =
     Inr (Some
       \<lparr>v5_model = ''AirPods Pro 2'', model_id = ''0x2014'',
        left_battery = 80, right_battery = 80, case_battery = 0,
        left_charging = True, right_charging = True, case_charging = False,
        left_in_ear = True, right_in_ear = True, both_in_case = False, lid_open = True,
        broadcasting_ear = ''right''\<rparr>)"
  by (simp add: parse_airpods_data_accept sample_eval)

subsection \<open>The retry loop and the lifecycle\<close>

lemma Stop_sets_flag: "stopRequested (snd (Stop ok s)) = True"
  by (simp add: Stop_def Let_def)

lemma Start_clears_flag: "stopRequested (snd (Start ok now s)) = False"
  by (simp add: Start_def Let_def)

lemma stops_fold_flag:
  "stopRequested (foldl (\<lambda>t ok. snd (Stop ok t)) s oks) = (stopRequested s \<or> oks \<noteq> [])"
proof (induction oks arbitrary: s)
  case Nil
  show ?case by simp
next
  case (Cons ok oks)
  show ?case by (simp add: Cons.IH Stop_sets_flag)
qed

lemma respects_stop_stops:
  "respects_stop b (map ExplicitStop oks @ es) = respects_stop (b \<or> oks \<noteq> []) es"
  by (induction oks arbitrary: b) simp_all

lemma no_restart_stops: "no_restart (map ExplicitStop oks)"
  by (induction oks) simp_all


lemma retry_loop_Cons:
  "retry_loop s (r # rs) =
     (let s1 = foldl (\<lambda>t ok. snd (Stop ok t)) s (stops_during_wait r);
          waited = Waited # map ExplicitStop (stops_during_wait r);
          s1' = foldl (\<lambda>t ok. snd (Stop ok t)) s1 (stops_after_test r);
          evs = waited @ map ExplicitStop (stops_after_test r)
      in if stopRequested s1 then (waited, Some s1)
         else if start_succeeds r
           then (evs @ [RestartAttempt True], Some (snd (Start True (clock r) s1')))
           else (evs @ RestartAttempt False # fst (retry_loop (snd (Start False (clock r) s1')) rs),
                 snd (retry_loop (snd (Start False (clock r) s1')) rs)))"
  by (simp add: retry_loop.simps Start_def Let_def split: prod.splits)

text \<open>A handler that finds the flag set leaves after its first wait, without a restart.\<close>

lemma retry_loop_stopped:
  assumes "stopRequested s"
  shows "retry_loop s (r # rs) =
           (Waited # map ExplicitStop (stops_during_wait r),
            Some (foldl (\<lambda>t ok. snd (Stop ok t)) s (stops_during_wait r)))"
  using assms by (simp add: retry_loop_Cons Let_def stops_fold_flag)

lemma handler_stopped_no_restart:
  "stopRequested s \<Longrightarrow> no_restart (fst (OnScannerStopped s rs))"
  by (cases rs)
    (simp_all add: OnScannerStopped_def retry_loop_stopped no_restart_stops retry_loop.simps(1))

lemma handler_stopped_returns:
  "stopRequested s \<Longrightarrow> rs \<noteq> [] \<Longrightarrow> snd (OnScannerStopped s rs) \<noteq> None"
  by (cases rs) (simp_all add: OnScannerStopped_def retry_loop_stopped)

text \<open>
  When no \<open>Stop()\<close> takes effect between the read of the flag and the \<open>Start()\<close> it
  guards, the loop restarts only while no explicit stop stands.
\<close>

lemma retry_loop_continues:
  "\<forall>r \<in> set rs. stops_after_test r = [] \<Longrightarrow> snd (retry_loop s rs) = Some s'
     \<Longrightarrow> respects_stop (stopRequested s') rest
     \<Longrightarrow> respects_stop (stopRequested s) (fst (retry_loop s rs) @ rest)"
proof (induction rs arbitrary: s)
  case Nil
  then show ?case by (simp add: retry_loop.simps)
next
  case (Cons r rs)
  let ?s1 = "foldl (\<lambda>t ok. snd (Stop ok t)) s (stops_during_wait r)"
  let ?s2 = "snd (Start False (clock r) ?s1)"
  from Cons.prems(1) have late: "stops_after_test r = []"
    and rest_timely: "\<forall>r \<in> set rs. stops_after_test r = []" by simp_all
  show ?case
  proof (cases "stopRequested ?s1")
    case True
    then have loop: "retry_loop s (r # rs) = (Waited # map ExplicitStop (stops_during_wait r), Some ?s1)"
      by (simp add: retry_loop_Cons Let_def)
    with Cons.prems(2) have "s' = ?s1" by simp
    with Cons.prems(3)
    have "respects_stop (stopRequested s \<or> stops_during_wait r \<noteq> []) rest"
      by (simp add: stops_fold_flag)
    then show ?thesis
      by (simp add: loop respects_stop_stops)
  next
    case False
    then have quiet: "\<not> stopRequested s" "stops_during_wait r = []"
      by (simp_all add: stops_fold_flag)
    show ?thesis
    proof (cases "start_succeeds r")
      case True
      with False quiet late Cons.prems show ?thesis
        by (auto simp: retry_loop_Cons Let_def Start_clears_flag)
    next
      case no: False
      with False late Cons.prems(2) have "snd (retry_loop ?s2 rs) = Some s'"
        by (simp add: retry_loop_Cons Let_def)
      from Cons.IH [OF rest_timely this Cons.prems(3)]
      have "respects_stop False (fst (retry_loop ?s2 rs) @ rest)"
        by (simp add: Start_clears_flag)
      with False no quiet late show ?thesis
        by (simp add: retry_loop_Cons Let_def)
    qed
  qed
qed

lemma retry_loop_respects:
  "\<forall>r \<in> set rs. stops_after_test r = []
     \<Longrightarrow> respects_stop (stopRequested s) (fst (retry_loop s rs))"
proof (induction rs arbitrary: s)
  case Nil
  show ?case by (simp add: retry_loop.simps)
next
  case (Cons r rs)
  let ?s1 = "foldl (\<lambda>t ok. snd (Stop ok t)) s (stops_during_wait r)"
  let ?s2 = "snd (Start False (clock r) ?s1)"
  from Cons.prems have late: "stops_after_test r = []"
    and rest_timely: "\<forall>r \<in> set rs. stops_after_test r = []" by simp_all
  show ?case
  proof (cases "stopRequested ?s1")
    case True
    then show ?thesis
      using respects_stop_stops [of "stopRequested s" "stops_during_wait r" "[]"]
      by (simp add: retry_loop_Cons Let_def)
  next
    case False
    then have quiet: "\<not> stopRequested s" "stops_during_wait r = []"
      by (simp_all add: stops_fold_flag)
    have "respects_stop False (fst (retry_loop ?s2 rs))"
      using Cons.IH [OF rest_timely, of ?s2] by (simp add: Start_clears_flag)
    with False quiet late show ?thesis
      by (simp add: retry_loop_Cons Let_def)
  qed
qed

lemma handler_respects:
  "\<forall>r \<in> set rs. stops_after_test r = []
     \<Longrightarrow> respects_stop (stopRequested s) (fst (OnScannerStopped s rs))"
  by (simp add: OnScannerStopped_def retry_loop_respects)

lemma handler_continues:
  "\<forall>r \<in> set rs. stops_after_test r = [] \<Longrightarrow> snd (OnScannerStopped s rs) = Some s'
     \<Longrightarrow> respects_stop (stopRequested s') rest
     \<Longrightarrow> respects_stop (stopRequested s) (fst (OnScannerStopped s rs) @ rest)"
  by (auto simp: OnScannerStopped_def retry_loop_continues split: if_splits)

lemma run_lifecycle_notification:
  "run_lifecycle s (StoppedNotification rs # cs) =
     (case snd (OnScannerStopped s rs) of
        None \<Rightarrow> fst (OnScannerStopped s rs)
      | Some s' \<Rightarrow> fst (OnScannerStopped s rs) @ run_lifecycle s' cs)"
  by (simp split: prod.splits option.splits)

lemma lifecycle_respects_without_late_stop:
  "\<forall>c \<in> set cs. \<forall>rs. c = StoppedNotification rs \<longrightarrow> (\<forall>r \<in> set rs. stops_after_test r = [])
     \<Longrightarrow> respects_stop (stopRequested s) (run_lifecycle s cs)"
proof (induction cs arbitrary: s)
  case Nil
  show ?case by simp
next
  case (Cons c cs)
  from Cons.prems
  have tail: "\<forall>c \<in> set cs. \<forall>rs. c = StoppedNotification rs \<longrightarrow>
                (\<forall>r \<in> set rs. stops_after_test r = [])"
    by simp
  note IH = Cons.IH [OF tail]
  show ?case
  proof (cases c)
    case (CallStart ok now)
    then show ?thesis using IH [of "snd (Start ok now s)"]
      by (simp add: Start_clears_flag)
  next
    case (CallStop ok)
    then show ?thesis using IH [of "snd (Stop ok s)"]
      by (simp add: Stop_sets_flag)
  next
    case (Destroy ok)
    then show ?thesis
      using IH [of "snd (Stop ok (s\<lparr>destroyRequested := True\<rparr>))"] IH [of s]
      by (simp add: Stop_sets_flag)
  next
    case (StoppedNotification rs)
    with Cons.prems have timely: "\<forall>r \<in> set rs. stops_after_test r = []" by simp
    show ?thesis
    proof (cases "snd (OnScannerStopped s rs)")
      case None
      with StoppedNotification show ?thesis
        using handler_respects [OF timely, of s]
        by (simp add: run_lifecycle_notification del: run_lifecycle.simps)
    next
      case (Some s')
      with StoppedNotification show ?thesis
        using handler_continues [OF timely Some IH [of s']]
        by (simp add: run_lifecycle_notification del: run_lifecycle.simps)
    qed
  qed
qed

subsection \<open>The device collection\<close>

lemma run_ops_Cons: "run_ops s (x # ops) = run_ops (run_op s x) ops"
  by (simp add: run_ops_def)

lemma run_ops_Nil: "run_ops s [] = s"
  by (simp add: run_ops_def)

lemma AddDevice_devices: "devices (AddDevice d s) = devices s @ [d]"
  by (simp add: AddDevice_def Let_def split: DeviceCallback.splits)

lemma AddDevice_callback: "deviceCallback (AddDevice d s) = deviceCallback s"
  by (simp add: AddDevice_def Let_def split: DeviceCallback.splits)

lemma AddDevice_notified:
  "notified (AddDevice d s) =
     notified s @ (case deviceCallback s of EmptyFunction \<Rightarrow> [] | Callable c \<Rightarrow> [(c, d)])"
  by (simp add: AddDevice_def Let_def split: DeviceCallback.splits)

lemma run_ops_callback:
  "deviceCallback (run_ops s ops) = last_registered (deviceCallback s) ops"
proof (induction ops arbitrary: s)
  case Nil
  show ?case by (simp add: run_ops_Nil)
next
  case (Cons x ops)
  show ?case
    by (cases x)
      (simp_all add: run_ops_Cons Cons.IH RegisterCallback_def AddDevice_callback
        ClearDevices_def)
qed

lemma run_ops_devices:
  "Clear \<notin> set ops \<Longrightarrow> devices (run_ops s ops) = devices s @ added ops"
proof (induction ops arbitrary: s)
  case Nil
  show ?case by (simp add: run_ops_Nil)
next
  case (Cons x ops)
  then show ?case
    by (cases x) (simp_all add: run_ops_Cons RegisterCallback_def AddDevice_devices)
qed

section \<open>The decoder\<close>

text \<open>
  Claim C1. For every byte sequence, \<open>CanParse\<close> returns true exactly when the sequence
  has at least 8 bytes and its byte at index 0 is \<open>0x07\<close>. It returns a value on every
  input, the empty sequence included: no read is out of range. \<open>CanParse\<close> is a function
  of its argument alone, so it has no effect on any state.
\<close>

theorem CanParse_iff:
  "CanParse data = Inr (8 \<le> length data \<and> data ! 0 = 0x07)"
  by (simp add: CanParse_def MIN_DATA_LENGTH_def PROXIMITY_PAIRING_TYPE_def at_index_def
      bind_fault_def)

text \<open>
  Claim C2. \<open>Parse\<close> returns no result exactly when the sequence has fewer than 8 bytes or
  its byte at index 0 differs from \<open>0x07\<close>. It never faults. On every other input it
  returns telemetry, and a model identifier outside the table yields the model name
  "Unknown AirPods".
\<close>

theorem Parse_no_result_iff:
  "(Parse data = Inr None) = (length data < 8 \<or> data ! 0 \<noteq> 0x07)
   \<and> (\<forall>f. Parse data \<noteq> Inl f)
   \<and> (8 \<le> length data \<and> data ! 0 = 0x07 \<longrightarrow>
        (\<exists>r. Parse data = Inr (Some r) \<and>
             ((ucast (push_bit 8 (ucast (data ! 4) :: 32 word) OR ucast (data ! 3)) :: uint16_t)
                 \<notin> {0x2014, 0x200E, 0x2013, 0x200F}
              \<longrightarrow> model r = ''Unknown AirPods'')))"
proof (cases data rule: Parse_cases)
  case rejected
  then show ?thesis by auto
next
  case accepted
  then show ?thesis by (simp add: ParseModelName_def)
qed

theorem Parse_no_result_iff_witness:
  "8 \<le> length [0x07, 0x19, 0x01, 0x0A, 0x00, 0x53, 0x4A, 0x03, 0x04, 0x05 :: uint8_t]
   \<and> [0x07, 0x19, 0x01, 0x0A, 0x00, 0x53, 0x4A, 0x03, 0x04, 0x05 :: uint8_t] ! 0 = 0x07
   \<and> (\<exists>r. Parse [0x07, 0x19, 0x01, 0x0A, 0x00, 0x53, 0x4A, 0x03, 0x04, 0x05] = Inr (Some r)
          \<and> model r = ''Unknown AirPods'')
   \<and> Parse [0x07, 0x01, 0x00] = Inr None
   \<and> Parse [] = Inr None"
  using Parse_no_result_iff [of "[0x07, 0x19, 0x01, 0x0A, 0x00, 0x53, 0x4A, 0x03, 0x04, 0x05]"]
    Parse_no_result_iff [of "[0x07, 0x01, 0x00]"] Parse_no_result_iff [of "[]"]
  by simp

text \<open>
  Claim C3. Decoding the captured payload \<open>07 19 01 14 20 0b 88 8f\<close> succeeds with model
  "AirPods Pro 2", model identifier "0x2014", left 80, right 80, case 0, left and right
  charging, case not charging, lid open, both earbuds in ear and not both in the case.
\<close>

theorem Parse_captured_payload:
  "Parse [0x07, 0x19, 0x01, 0x14, 0x20, 0x0b, 0x88, 0x8f] =
     Inr (Some
       \<lparr>model = ''AirPods Pro 2'', modelId = ''0x2014'',
        batteryLevels = \<lparr>left = 80, right = 80, case_level = 0\<rparr>,
        chargingState = \<lparr>leftCharging = True, rightCharging = True, caseCharging = False\<rparr>,
        deviceState = \<lparr>leftInEar = True, rightInEar = True, bothInCase = False,
                       lidOpen = True\<rparr>,
        broadcastingEar = ''right''\<rparr>)"
  by (rule Parse_capture)

text \<open>
  Claim C4. For every accepted payload, the case level is the high nibble of byte 5
  times 10, the left level the high nibble of byte 6 times 10, and the right level the
  low nibble of byte 6 times 10. So a nibble from 0 to 10 gives a percentage in
  \<open>[0,100]\<close>, and a nibble from 11 to 15 is not clamped: it gives 110 to 150.
\<close>

theorem battery_levels_are_nibbles_times_ten:
  assumes "Parse data = Inr (Some r)"
  shows "case_level (batteryLevels r) = (uint (data ! 5) div 16) * 10
       \<and> left (batteryLevels r) = (uint (data ! 6) div 16) * 10
       \<and> right (batteryLevels r) = (uint (data ! 6) mod 16) * 10
       \<and> (uint (data ! 5) div 16 \<le> 10 \<longrightarrow>
            0 \<le> case_level (batteryLevels r) \<and> case_level (batteryLevels r) \<le> 100)
       \<and> (uint (data ! 6) div 16 \<le> 10 \<longrightarrow>
            0 \<le> left (batteryLevels r) \<and> left (batteryLevels r) \<le> 100)
       \<and> (uint (data ! 6) mod 16 \<le> 10 \<longrightarrow>
            0 \<le> right (batteryLevels r) \<and> right (batteryLevels r) \<le> 100)
       \<and> (11 \<le> uint (data ! 5) div 16 \<longrightarrow>
            110 \<le> case_level (batteryLevels r) \<and> case_level (batteryLevels r) \<le> 150)
       \<and> (11 \<le> uint (data ! 6) div 16 \<longrightarrow>
            110 \<le> left (batteryLevels r) \<and> left (batteryLevels r) \<le> 150)
       \<and> (11 \<le> uint (data ! 6) mod 16 \<longrightarrow>
            110 \<le> right (batteryLevels r) \<and> right (batteryLevels r) \<le> 150)"
proof (cases data rule: Parse_cases)
  case rejected
  with assms show ?thesis by simp
next
  case accepted
  with assms have r: "batteryLevels r = ExtractBatteryLevels (data ! 6) (data ! 5)"
    by auto
  have c: "case_level (batteryLevels r) = (uint (data ! 5) div 16) * 10"
    and l: "left (batteryLevels r) = (uint (data ! 6) div 16) * 10"
    and rt: "right (batteryLevels r) = (uint (data ! 6) mod 16) * 10"
    by (simp_all add: r ExtractBatteryLevels_nibbles)
  have byte: "0 \<le> uint w \<and> uint w < 256" for w :: uint8_t
    using uint_bounded [of w] by simp
  have hi: "0 \<le> uint w div 16 \<and> uint w div 16 \<le> 15" for w :: uint8_t
    using byte [of w] by presburger
  have lo: "0 \<le> uint w mod 16 \<and> uint w mod 16 \<le> 15" for w :: uint8_t
    by simp
  show ?thesis
    unfolding c l rt using hi [of "data ! 5"] hi [of "data ! 6"] lo [of "data ! 6"] by simp
qed

theorem battery_levels_are_nibbles_times_ten_witness:
  "Parse [0x07, 0x19, 0x01, 0x14, 0x20, 0xFB, 0xFB, 0x8C] =
     Inr (Some
       \<lparr>model = ''AirPods Pro 2'', modelId = ''0x2014'',
        batteryLevels = \<lparr>left = 150, right = 110, case_level = 150\<rparr>,
        chargingState = \<lparr>leftCharging = True, rightCharging = True, caseCharging = False\<rparr>,
        deviceState = \<lparr>leftInEar = False, rightInEar = False, bothInCase = True,
                       lidOpen = True\<rparr>,
        broadcastingEar = ''right''\<rparr>)
   \<and> (11::int) \<le> uint (0xFB :: uint8_t) div 16
   \<and> (11::int) \<le> uint (0xFB :: uint8_t) mod 16
   \<and> (150::int) = (uint (0xFB :: uint8_t) div 16) * 10
   \<and> (110::int) = (uint (0xFB :: uint8_t) mod 16) * 10
   \<and> uint (0x88 :: uint8_t) div 16 \<le> 10
   \<and> uint (0x88 :: uint8_t) mod 16 \<le> 10
   \<and> uint (0x0b :: uint8_t) div 16 \<le> 10
   \<and> (80::int) = (uint (0x88 :: uint8_t) div 16) * 10
   \<and> (80::int) = (uint (0x88 :: uint8_t) mod 16) * 10
   \<and> (0::int) = (uint (0x0b :: uint8_t) div 16) * 10"
  using battery_levels_are_nibbles_times_ten [OF Parse_large_nibbles]
    battery_levels_are_nibbles_times_ten [OF Parse_capture]
  by (simp add: Parse_large_nibbles)

text \<open>
  Claim C5. For every payload on which \<open>Parse\<close> succeeds, \<open>bothInCase\<close> equals
  \<open>!(leftInEar || rightInEar)\<close>, where \<open>leftInEar\<close> is bit 1 and \<open>rightInEar\<close> is bit 0 of
  byte 7: \<open>bothInCase\<close> is computed from these two flags and from nothing else.
\<close>

theorem bothInCase_is_derived:
  assumes "Parse data = Inr (Some r)"
  shows "bothInCase (deviceState r) = (\<not> (leftInEar (deviceState r) \<or> rightInEar (deviceState r)))
       \<and> leftInEar (deviceState r) = bit (data ! 7) 1
       \<and> rightInEar (deviceState r) = bit (data ! 7) 0"
proof (cases data rule: Parse_cases)
  case rejected
  with assms show ?thesis by simp
next
  case accepted
  with assms have "deviceState r = ExtractDeviceState (data ! 7)" by auto
  then show ?thesis
    by (simp add: ExtractDeviceState_def Let_def test_bit0 test_bit1)
qed

theorem bothInCase_is_derived_witness:
  "Parse [0x07, 0x19, 0x01, 0x14, 0x20, 0xFB, 0xFB, 0x8C] =
     Inr (Some
       \<lparr>model = ''AirPods Pro 2'', modelId = ''0x2014'',
        batteryLevels = \<lparr>left = 150, right = 110, case_level = 150\<rparr>,
        chargingState = \<lparr>leftCharging = True, rightCharging = True, caseCharging = False\<rparr>,
        deviceState = \<lparr>leftInEar = False, rightInEar = False, bothInCase = True,
                       lidOpen = True\<rparr>,
        broadcastingEar = ''right''\<rparr>)
   \<and> \<not> bit (0x8C :: uint8_t) 1 \<and> \<not> bit (0x8C :: uint8_t) 0
   \<and> bit (0x8f :: uint8_t) 1 \<and> bit (0x8f :: uint8_t) 0"
  using bothInCase_is_derived [OF Parse_large_nibbles] bothInCase_is_derived [OF Parse_capture]
  by (simp add: Parse_large_nibbles)

text \<open>
  Claim C8. \<open>Parse\<close> reads the payload at offsets 0, 3, 4, 5, 6 and 7 only: two byte
  sequences of at least 8 bytes each that agree at these six offsets have equal results,
  whatever their bytes at offsets 1 and 2 and beyond 7, and whatever their lengths.
\<close>

theorem Parse_reads_six_offsets:
  assumes "8 \<le> length a" and "8 \<le> length b"
    and "\<forall>i \<in> {0, 3, 4, 5, 6, 7}. a ! i = b ! i"
  shows "Parse a = Parse b"
proof (cases "a ! 0 = 0x07")
  case True
  with assms have "b ! 0 = 0x07" by simp
  with True assms show ?thesis by (simp add: Parse_accept)
next
  case False
  with assms have "b ! 0 \<noteq> 0x07" by simp
  with False show ?thesis by (simp add: Parse_reject)
qed

theorem Parse_reads_six_offsets_witness:
  "8 \<le> length [0x07, 0x19, 0x01, 0x14, 0x20, 0x0b, 0x88, 0x8f :: uint8_t]
   \<and> 8 \<le> length [0x07, 0xAA, 0xBB, 0x14, 0x20, 0x0b, 0x88, 0x8f, 0x01, 0x02 :: uint8_t]
   \<and> [0x07, 0x19, 0x01, 0x14, 0x20, 0x0b, 0x88, 0x8f :: uint8_t] ! 0 =
       [0x07, 0xAA, 0xBB, 0x14, 0x20, 0x0b, 0x88, 0x8f, 0x01, 0x02] ! 0
   \<and> [0x07, 0x19, 0x01, 0x14, 0x20, 0x0b, 0x88, 0x8f :: uint8_t] ! 3 =
       [0x07, 0xAA, 0xBB, 0x14, 0x20, 0x0b, 0x88, 0x8f, 0x01, 0x02] ! 3
   \<and> [0x07, 0x19, 0x01, 0x14, 0x20, 0x0b, 0x88, 0x8f :: uint8_t] ! 4 =
       [0x07, 0xAA, 0xBB, 0x14, 0x20, 0x0b, 0x88, 0x8f, 0x01, 0x02] ! 4
   \<and> [0x07, 0x19, 0x01, 0x14, 0x20, 0x0b, 0x88, 0x8f :: uint8_t] ! 5 =
       [0x07, 0xAA, 0xBB, 0x14, 0x20, 0x0b, 0x88, 0x8f, 0x01, 0x02] ! 5
   \<and> [0x07, 0x19, 0x01, 0x14, 0x20, 0x0b, 0x88, 0x8f :: uint8_t] ! 6 =
       [0x07, 0xAA, 0xBB, 0x14, 0x20, 0x0b, 0x88, 0x8f, 0x01, 0x02] ! 6
   \<and> [0x07, 0x19, 0x01, 0x14, 0x20, 0x0b, 0x88, 0x8f :: uint8_t] ! 7 =
       [0x07, 0xAA, 0xBB, 0x14, 0x20, 0x0b, 0x88, 0x8f, 0x01, 0x02] ! 7
   \<and> [0x07, 0x19, 0x01, 0x14, 0x20, 0x0b, 0x88, 0x8f :: uint8_t] ! 1 \<noteq>
       [0x07, 0xAA, 0xBB, 0x14, 0x20, 0x0b, 0x88, 0x8f, 0x01, 0x02] ! 1
   \<and> Parse [0x07, 0x19, 0x01, 0x14, 0x20, 0x0b, 0x88, 0x8f] =
       Parse [0x07, 0xAA, 0xBB, 0x14, 0x20, 0x0b, 0x88, 0x8f, 0x01, 0x02]"
  using Parse_reads_six_offsets
    [of "[0x07, 0x19, 0x01, 0x14, 0x20, 0x0b, 0x88, 0x8f]"
        "[0x07, 0xAA, 0xBB, 0x14, 0x20, 0x0b, 0x88, 0x8f, 0x01, 0x02]"]
  by simp

text \<open>
  Claim C9. For every payload on which \<open>Parse\<close> succeeds, the broadcasting ear of the
  result is the constant "right", whatever the bytes of the payload.
\<close>

theorem broadcastingEar_is_right:
  assumes "Parse data = Inr (Some r)"
  shows "broadcastingEar r = ''right''"
proof (cases data rule: Parse_cases)
  case rejected
  with assms show ?thesis by simp
next
  case accepted
  with assms have "broadcastingEar r = DetermineBroadcastingEar" by auto
  then show ?thesis by (simp add: DetermineBroadcastingEar_def)
qed

theorem broadcastingEar_is_right_witness:
  "Parse [0x07, 0x19, 0x01, 0x0A, 0x00, 0x53, 0x4A, 0x03, 0x04, 0x05] =
     Inr (Some
       \<lparr>model = ''Unknown AirPods'', modelId = ''0x000A'',
        batteryLevels = \<lparr>left = 40, right = 100, case_level = 50\<rparr>,
        chargingState = \<lparr>leftCharging = True, rightCharging = True, caseCharging = False\<rparr>,
        deviceState = \<lparr>leftInEar = True, rightInEar = True, bothInCase = False,
                       lidOpen = False\<rparr>,
        broadcastingEar = ''right''\<rparr>)"
  using broadcastingEar_is_right [OF Parse_unknown_model]
  by (simp add: Parse_unknown_model)

text \<open>
  Claim C10. The monolithic \<open>parse_airpods_data\<close> of the v5 scanner and the modular
  \<open>Parse\<close> are equivalent. On every byte sequence neither faults, both return no result
  or both return telemetry, and the two telemetry values agree field for field: model
  name, model identifier string, the three battery levels, the three charging flags,
  the two in-ear flags, \<open>bothInCase\<close>, \<open>lidOpen\<close> and the broadcasting ear.
\<close>

theorem decoders_agree:
  "(parse_airpods_data data = Inr None) = (Parse data = Inr None)
   \<and> (\<forall>f. parse_airpods_data data \<noteq> Inl f \<and> Parse data \<noteq> Inl f)
   \<and> ((\<exists>v. parse_airpods_data data = Inr (Some v)) = (\<exists>r. Parse data = Inr (Some r)))
   \<and> (\<forall>v r. parse_airpods_data data = Inr (Some v) \<and> Parse data = Inr (Some r) \<longrightarrow>
          v5_model v = model r
        \<and> model_id v = modelId r
        \<and> left_battery v = left (batteryLevels r)
        \<and> right_battery v = right (batteryLevels r)
        \<and> case_battery v = case_level (batteryLevels r)
        \<and> left_charging v = leftCharging (chargingState r)
        \<and> right_charging v = rightCharging (chargingState r)
        \<and> case_charging v = caseCharging (chargingState r)
        \<and> left_in_ear v = leftInEar (deviceState r)
        \<and> right_in_ear v = rightInEar (deviceState r)
        \<and> both_in_case v = bothInCase (deviceState r)
        \<and> lid_open v = lidOpen (deviceState r)
        \<and> broadcasting_ear v = broadcastingEar r)"
proof (cases data rule: Parse_cases)
  case rejected
  then show ?thesis by (simp add: parse_airpods_data_reject)
next
  case accepted
  note v5 = parse_airpods_data_accept [OF accepted(1,2)]
  show ?thesis
    unfolding v5 accepted(3)
    by (simp add: ExtractBatteryLevels_def ExtractChargingState_def ExtractDeviceState_def
        DetermineBroadcastingEar_def Let_def)
qed

theorem decoders_agree_witness:
  "parse_airpods_data [0x07, 0x19, 0x01, 0x14, 0x20, 0x0b, 0x88, 0x8f] =
     Inr (Some
       \<lparr>v5_model = ''AirPods Pro 2'', model_id = ''0x2014'',
        left_battery = 80, right_battery = 80, case_battery = 0,
        left_charging = True, right_charging = True, case_charging = False,
        left_in_ear = True, right_in_ear = True, both_in_case = False, lid_open = True,
        broadcasting_ear = ''right''\<rparr>)
   \<and> Parse [0x07, 0x19, 0x01, 0x14, 0x20, 0x0b, 0x88, 0x8f] =
     Inr (Some
       \<lparr>model = ''AirPods Pro 2'', modelId = ''0x2014'',
        batteryLevels = \<lparr>left = 80, right = 80, case_level = 0\<rparr>,
        chargingState = \<lparr>leftCharging = True, rightCharging = True, caseCharging = False\<rparr>,
        deviceState = \<lparr>leftInEar = True, rightInEar = True, bothInCase = False,
                       lidOpen = True\<rparr>,
        broadcastingEar = ''right''\<rparr>)
   \<and> parse_airpods_data [0x07, 0x01, 0x00] = Inr None
   \<and> Parse [0x07, 0x01, 0x00] = Inr None"
  using decoders_agree [of "[0x07, 0x19, 0x01, 0x14, 0x20, 0x0b, 0x88, 0x8f]"]
    decoders_agree [of "[0x07, 0x01, 0x00]"]
  by (simp add: parse_airpods_data_capture Parse_capture Parse_reject)

section \<open>The scanner lifecycle\<close>

text \<open>
  Claim C6. Once an explicit \<open>Stop()\<close> has set the explicit-stop flag, the restart loop
  that a "stopped" notification triggers issues no further \<open>Start()\<close>. The loop does test
  the flag before each restart attempt, but the test and the attempt are two steps,
  and \<open>Start()\<close> clears the flag: the scanner is started, a fault stops the watcher, the
  loop waits and reads the flag as clear, a client's \<open>Stop()\<close> sets it, and the loop
  calls \<open>Start()\<close> all the same. That \<open>Start()\<close> erases the stop request, so the handler of
  the next notification restarts the watcher once more. In this execution a restart
  follows the explicit stop twice, and the scanner ends started with the flag clear.
\<close>

theorem late_Stop_is_followed_by_restart:
  "run_lifecycle (new_scanner 0)
     [CallStart True 1,
      StoppedNotification
        [\<lparr>stops_during_wait = [], stops_after_test = [True], start_succeeds = True,
          clock = 4\<rparr>],
      StoppedNotification
        [\<lparr>stops_during_wait = [], stops_after_test = [], start_succeeds = True,
          clock = 7\<rparr>]]
     = [ExplicitStart True, Waited, ExplicitStop True, RestartAttempt True,
        Waited, RestartAttempt True]
   \<and> \<not> respects_stop False
         [ExplicitStart True, Waited, ExplicitStop True, RestartAttempt True,
          Waited, RestartAttempt True]
   \<and> snd (OnScannerStopped (snd (Start True 1 (new_scanner 0)))
            [\<lparr>stops_during_wait = [], stops_after_test = [True], start_succeeds = True,
              clock = 4\<rparr>])
     = Some \<lparr>bleWatcherStarted = True, devices = [], deviceCallback = EmptyFunction,
             stopRequested = False, destroyRequested = False, lastStartTime = 4,
             notified = []\<rparr>"
  by (simp add: Start_def Stop_def new_scanner_def OnScannerStopped_def retry_loop.simps
      Let_def)

section \<open>The device collection\<close>

text \<open>
  Claim C7. \<open>AddDevice\<close> appends the device to the collection without deduplication and
  then invokes every callback registered so far, in the order of registration, with the
  device. The scanner appends as claimed, but it keeps one callback only: with two
  callbacks registered, the registry of the claim invokes both on an \<open>Add\<close>, and the
  scanner invokes the second alone, since the second \<open>RegisterCallback\<close> has overwritten
  the first.
\<close>

theorem second_RegisterCallback_overwrites_first:
  "notified
     (run_ops (new_scanner 0)
        [Register (Callable 1), Register (Callable 2),
         Add \<lparr>deviceId = ''0000a1b2c3d4'', address = 0xA1B2C3D4, rssi = - 58,
              manufacturerData = [0x07, 0x01, 0x00], timestamp = 0, airpodsData = None\<rparr>])
     = [(2, \<lparr>deviceId = ''0000a1b2c3d4'', address = 0xA1B2C3D4, rssi = - 58,
             manufacturerData = [0x07, 0x01, 0x00], timestamp = 0, airpodsData = None\<rparr>)]
   \<and> Spec_notifications []
        [Register (Callable 1), Register (Callable 2),
         Add \<lparr>deviceId = ''0000a1b2c3d4'', address = 0xA1B2C3D4, rssi = - 58,
              manufacturerData = [0x07, 0x01, 0x00], timestamp = 0, airpodsData = None\<rparr>]
     = [(1, \<lparr>deviceId = ''0000a1b2c3d4'', address = 0xA1B2C3D4, rssi = - 58,
             manufacturerData = [0x07, 0x01, 0x00], timestamp = 0, airpodsData = None\<rparr>),
        (2, \<lparr>deviceId = ''0000a1b2c3d4'', address = 0xA1B2C3D4, rssi = - 58,
             manufacturerData = [0x07, 0x01, 0x00], timestamp = 0, airpodsData = None\<rparr>)]
   \<and> GetDeviceCount
        (run_ops (new_scanner 0)
           [Register (Callable 1), Register (Callable 2),
            Add \<lparr>deviceId = ''0000a1b2c3d4'', address = 0xA1B2C3D4, rssi = - 58,
                 manufacturerData = [0x07, 0x01, 0x00], timestamp = 0, airpodsData = None\<rparr>])
     = 1"
  by (simp add: run_ops_def RegisterCallback_def AddDevice_def new_scanner_def
      GetDeviceCount_def Let_def)

end
